theory Spec2Isabelle
  imports Main "HOL-Library.Word" "HOL-Library.Sublist"
begin

section \<open>Elasticsearch client resolution of the log query module\<close>

text \<open>
  A shallow embedding of \<^verbatim>\<open>modules/extensions/loghub/index/query/clients.go\<close>.
  Go strings are byte sequences, modelled as \<^typ>\<open>string\<close>; a \<^verbatim>\<open>nil\<close> slice and an
  empty slice are both the empty list. Calls to the logger are left out: they do not
  change what the functions return.
\<close>

subsection \<open>Data model\<close>

datatype error = Error string

text \<open>\<^verbatim>\<open>LogFilter\<close>: one key/value pair of \<^verbatim>\<open>LogRequest.Filters\<close>.\<close>

record LogFilter =
  Key :: string
  Value :: string

text \<open>\<^verbatim>\<open>LogRequest\<close>, with the fields that client resolution reads.\<close>

record LogRequest =
  ClusterName :: string
  Addon :: string
  Filters :: "LogFilter list"

text \<open>\<^verbatim>\<open>apistructs.ClusterInfo\<close>, with the field that client resolution reads.\<close>

record ClusterInfo =
  Name :: string

text \<open>\<^verbatim>\<open>db.LogInstance\<close>: a row of the addon instance table.\<close>

record LogInstance =
  LogKey :: string
  ClusterName :: string
  ProjectId :: string
  Workspace :: string

text \<open>\<^verbatim>\<open>db.LogDeployment\<close>: a row of the deployment table.\<close>

record LogDeployment =
  OrgID :: string
  ClusterName :: string
  ClusterType :: int
  ESURL :: string
  ESConfig :: string
  CollectorURL :: string
  LogType :: string

text \<open>The local struct \<^verbatim>\<open>ESConfig\<close> that the security blob of a row is decoded into.\<close>

record ESConfig =
  Security :: bool
  Username :: string
  Password :: string

text \<open>
  The options handed to \<^verbatim>\<open>elastic.NewClient\<close>. The HTTP client of \<^verbatim>\<open>newHTTPClient\<close>
  is determined by the cluster name it dials through.
\<close>

datatype ClientOption =
    SetURL "string list"
  | SetSniff bool
  | SetHealthcheck bool
  | SetBasicAuth string string
  | SetHttpClient string

text \<open>\<^verbatim>\<open>ESClient\<close>; \<^typ>\<open>'c\<close> is the embedded \<^verbatim>\<open>*elastic.Client\<close> handle.\<close>

record 'c ESClient =
  Client :: 'c
  URLs :: string
  LogVersion :: string
  Indices :: "string list"

text \<open>
  \<^verbatim>\<open>provider\<close>: the configuration flag, the two central handles, and the collaborators
  the resolution calls: the cluster registry (\<^verbatim>\<open>p.bdl\<close>), the two tables (\<^verbatim>\<open>p.db\<close>),
  and the library functions \<^verbatim>\<open>elastic.NewClient\<close> and \<^verbatim>\<open>json.Unmarshal\<close> (into an
  \<^verbatim>\<open>ESConfig\<close>). A Go call returning \<^verbatim>\<open>(value, err)\<close> whose value is used although
  \<^verbatim>\<open>err\<close> is set returns a pair here; one whose error ends the use of the value returns a
  sum. The organization id is an \<^verbatim>\<open>int64\<close>; \<^verbatim>\<open>uint64(orgID)\<close> keeps its 64 bits.
\<close>

record 'c provider =
  QueryBackES :: bool
  client :: 'c
  backClient :: 'c
  ListClusters :: "string \<Rightarrow> 64 word \<Rightarrow> error + ClusterInfo list"
  QueryByOrgIDAndClusters :: "64 word \<Rightarrow> string list \<Rightarrow> error + LogDeployment list"
  GetByLogKey :: "string \<Rightarrow> LogInstance option \<times> error option"
  GetListByClusterAndProjectIdAndWorkspace ::
    "string \<Rightarrow> string \<Rightarrow> string \<Rightarrow> LogInstance list \<times> error option"
  NewClient :: "ClientOption list \<Rightarrow> error + 'c"
  Unmarshal :: "string \<Rightarrow> error + ESConfig"

subsection \<open>Constants\<close>

definition LogVersion1 :: string where
  "LogVersion1 = ''1.0.0''"

definition LogVersion2 :: string where
  "LogVersion2 = ''2.0.0''"

text \<open>
  Modelled from the spec: the constants \<^verbatim>\<open>db.LogTypeLogAnalytics\<close> and
  \<^verbatim>\<open>db.LogTypeLogService\<close> are declared in the package
  \<^verbatim>\<open>modules/msp/instance/db\<close>, which is not among the sources; the specification names
  the two log types "log-analytics" and "log-service".
\<close>

definition LogTypeLogAnalytics :: string where
  "LogTypeLogAnalytics = ''log-analytics''"

definition LogTypeLogService :: string where
  "LogTypeLogService = ''log-service''"

subsection \<open>Functions of the Go library\<close>

text \<open>\<^verbatim>\<open>strings.ReplaceAll(s, "*", "")\<close>: every occurrence of the one byte is removed.\<close>

definition ReplaceAll_empty :: "string \<Rightarrow> char \<Rightarrow> string" where
  "ReplaceAll_empty s old = filter (\<lambda>c. c \<noteq> old) s"

text \<open>\<^verbatim>\<open>strings.Split(s, ",")\<close> for a separator of one byte.\<close>

fun Split :: "string \<Rightarrow> char \<Rightarrow> string list" where
  "Split [] sep = [[]]"
| "Split (c # s) sep =
     (if c = sep then [] # Split s sep
      else (case Split s sep of [] \<Rightarrow> [[c]] | x # xs \<Rightarrow> (c # x) # xs))"

text \<open>
  \<^verbatim>\<open>strings.TrimSpace\<close> removes the leading and trailing runes that
  \<^verbatim>\<open>unicode.IsSpace\<close> accepts. On the UTF-8 bytes of a Go string these are the six
  ASCII bytes 0x09 to 0x0D and 0x20, and the encodings of U+0085, U+00A0, U+1680,
  U+2000 to U+200A, U+2028, U+2029, U+202F, U+205F and U+3000.
\<close>

definition spaceRunes :: "string list" where
  "spaceRunes =
     map (\<lambda>c. [c]) [CHR 0x09, CHR 0x0A, CHR 0x0B, CHR 0x0C, CHR 0x0D, CHR 0x20] @
     [[CHR 0xC2, CHR 0x85], [CHR 0xC2, CHR 0xA0], [CHR 0xE1, CHR 0x9A, CHR 0x80]] @
     map (\<lambda>c. [CHR 0xE2, CHR 0x80, c])
       [CHR 0x80, CHR 0x81, CHR 0x82, CHR 0x83, CHR 0x84, CHR 0x85, CHR 0x86, CHR 0x87,
        CHR 0x88, CHR 0x89, CHR 0x8A, CHR 0xA8, CHR 0xA9, CHR 0xAF] @
     [[CHR 0xE2, CHR 0x81, CHR 0x9F], [CHR 0xE3, CHR 0x80, CHR 0x80]]"

text \<open>
  \<^verbatim>\<open>TrimLeftFunc(s, unicode.IsSpace)\<close>: while the string starts with the encoding of a
  white space rune, drop it. No encoding is a prefix of another, so the first one found
  is the rune that \<^verbatim>\<open>utf8.DecodeRuneInString\<close> reads. Every encoding has at least one
  byte; the test \<open>r \<noteq> []\<close> states it where the recursion needs it.
\<close>

function TrimLeft :: "string list \<Rightarrow> string \<Rightarrow> string" where
  "TrimLeft runes s =
     (case find (\<lambda>r. r \<noteq> [] \<and> prefix r s) runes of
        None \<Rightarrow> s
      | Some r \<Rightarrow> TrimLeft runes (drop (length r) s))"
  by pat_completeness auto
termination
proof (relation "measure (\<lambda>(runes, s). length s)")
  show "wf (measure (\<lambda>(runes, s). length s))" by simp
next
  fix runes :: "string list" and s r :: string
  assume "find (\<lambda>r. r \<noteq> [] \<and> prefix r s) runes = Some r"
  then have "r \<noteq> []" and "prefix r s"
    by (auto simp: find_Some_iff)
  then have "s \<noteq> []" and "0 < length r"
    by auto
  then show "((runes, drop (length r) s), (runes, s)) \<in> measure (\<lambda>(runes, s). length s)"
    by simp
qed

text \<open>
  \<^verbatim>\<open>TrimRightFunc(s, unicode.IsSpace)\<close>: the same from the end, where
  \<^verbatim>\<open>utf8.DecodeLastRuneInString\<close> reads a white space rune exactly when the string ends
  with its encoding.
\<close>

definition TrimRight :: "string list \<Rightarrow> string \<Rightarrow> string" where
  "TrimRight runes s = rev (TrimLeft (map rev runes) (rev s))"

definition TrimSpace :: "string \<Rightarrow> string" where
  "TrimSpace s = TrimRight spaceRunes (TrimLeft spaceRunes s)"

subsection \<open>Index names\<close>

text \<open>The loop of \<^verbatim>\<open>getLogIndices\<close>: two names are appended for each addon.\<close>

fun getLogIndices_loop :: "string \<Rightarrow> string list \<Rightarrow> string list \<Rightarrow> string list" where
  "getLogIndices_loop pfx indices [] = indices"
| "getLogIndices_loop pfx indices (addon # addons) =
     getLogIndices_loop pfx (indices @ [pfx @ addon, pfx @ addon @ ''-*'']) addons"

definition getLogIndices :: "string \<Rightarrow> string \<Rightarrow> string list \<Rightarrow> string list" where
  "getLogIndices pfx orgId addons =
     (if length addons > 0 then getLogIndices_loop pfx [] addons
      else if length orgId > 0 then [pfx @ orgId]
      else [pfx @ ''*''])"

text \<open>
  The reference definition of the index names, following the specification: for each
  addon, in input order, the exact name and its wildcard variant, duplicates kept; else
  the organization's name; else the wildcard under the pfx.
\<close>

definition getLogIndices_spec :: "string \<Rightarrow> string \<Rightarrow> string list \<Rightarrow> string list" where
  "getLogIndices_spec pfx orgId addons =
     (if addons \<noteq> [] then concat (map (\<lambda>addon. [pfx @ addon, pfx @ addon @ ''-*'']) addons)
      else if orgId \<noteq> [] then [pfx @ orgId]
      else [pfx @ ''*''])"

subsection \<open>Central clients\<close>

definition getCenterESClients :: "'c provider \<Rightarrow> string list \<Rightarrow> 'c ESClient list" where
  "getCenterESClients p indices =
     (if QueryBackES p then
        [\<lparr>Client = client p, URLs = ''-'', LogVersion = [], Indices = indices\<rparr>,
         \<lparr>Client = backClient p, URLs = ''-b'', LogVersion = [], Indices = indices\<rparr>]
      else
        [\<lparr>Client = client p, URLs = ''-'', LogVersion = [], Indices = indices\<rparr>])"

subsection \<open>Clients of the organization's deployments\<close>

text \<open>
  The inner loop over \<^verbatim>\<open>sameGroupLogInstances\<close>: a key already in \<^verbatim>\<open>keyCaches\<close> is
  passed over, any other is appended to \<^verbatim>\<open>addons\<close> and recorded.
\<close>

fun sameGroupKeys :: "(string \<rightharpoonup> bool) \<Rightarrow> string list \<Rightarrow> LogInstance list \<Rightarrow> string list" where
  "sameGroupKeys keyCaches addons [] = addons"
| "sameGroupKeys keyCaches addons (inst # insts) =
     (if keyCaches (LogKey inst) \<noteq> None then sameGroupKeys keyCaches addons insts
      else sameGroupKeys (keyCaches(LogKey inst \<mapsto> True)) (addons @ [LogKey inst]) insts)"

text \<open>
  The addon keys of one row ("get all other addons in same cluster, project and
  workspace"). A failing lookup is only logged: the instance, or the list, that came
  with the error is used as it is.
\<close>

definition groupAddons :: "'c provider \<Rightarrow> string \<Rightarrow> string list" where
  "groupAddons p addon =
     (if length addon > 0 then
        (case fst (GetByLogKey p addon) of
           Some logInstance \<Rightarrow>
             sameGroupKeys Map.empty []
               (fst (GetListByClusterAndProjectIdAndWorkspace p
                  (LogInstance.ClusterName logInstance) (ProjectId logInstance)
                  (Workspace logInstance)))
         | None \<Rightarrow> [addon])
      else [])"

text \<open>
  The reference definition of the sibling group's keys, following the specification:
  the keys deduplicated, the first occurrence of each kept, in first-seen order.
\<close>

fun dedupFirstSeen_spec :: "string list \<Rightarrow> string list" where
  "dedupFirstSeen_spec [] = []"
| "dedupFirstSeen_spec (k # ks) = k # dedupFirstSeen_spec (filter (\<lambda>k'. k' \<noteq> k) ks)"

text \<open>The options of one row's client.\<close>

definition clientOptions :: "'c provider \<Rightarrow> LogDeployment \<Rightarrow> ClientOption list" where
  "clientOptions p d =
     (let options = [SetURL (Split (ESURL d) CHR '',''), SetSniff False, SetHealthcheck False];
          options =
            (if length (ESConfig d) > 0 then
               (case Unmarshal p (ESConfig d) of
                  Inr cfg \<Rightarrow>
                    if Security cfg \<and> (Username cfg \<noteq> [] \<or> Password cfg \<noteq> [])
                    then options @ [SetBasicAuth (Username cfg) (Password cfg)]
                    else options
                | Inl err \<Rightarrow> options)
             else options);
          options =
            (if ClusterType d = 1 then options @ [SetHttpClient (LogDeployment.ClusterName d)]
             else options)
      in options)"

text \<open>
  The body of the loop over the deployment rows: \<open>None\<close> where the source continues with
  the next row, the client appended otherwise.
\<close>

definition deploymentClient :: "'c provider \<Rightarrow> string \<Rightarrow> LogDeployment \<Rightarrow> 'c ESClient option" where
  "deploymentClient p addon d =
     (if length (ESURL d) \<le> 0 then None
      else
        let addons = groupAddons p addon;
            options = clientOptions p d;
            orgId = (if LogType d = LogTypeLogAnalytics then [] else OrgID d)
        in case NewClient p options of
             Inl err \<Rightarrow> None
           | Inr cl \<Rightarrow>
               let collectorURL = TrimSpace (CollectorURL d) in
               if length collectorURL > 0 \<or> LogType d = LogTypeLogService then
                 Some \<lparr>Client = cl, URLs = ESURL d, LogVersion = LogVersion2,
                       Indices = getLogIndices ''rlogs-'' orgId addons\<rparr>
               else
                 Some \<lparr>Client = cl, URLs = ESURL d, LogVersion = LogVersion1,
                       Indices = getLogIndices ''spotlogs-'' orgId addons\<rparr>)"

fun deploymentClients ::
  "'c provider \<Rightarrow> string \<Rightarrow> 'c ESClient list \<Rightarrow> LogDeployment list \<Rightarrow> 'c ESClient list" where
  "deploymentClients p addon clients [] = clients"
| "deploymentClients p addon clients (d # list) =
     (case deploymentClient p addon d of
        None \<Rightarrow> deploymentClients p addon clients list
      | Some c \<Rightarrow> deploymentClients p addon (clients @ [c]) list)"

definition getESClientsFromLogAnalyticsByCluster ::
  "'c provider \<Rightarrow> 64 word \<Rightarrow> string \<Rightarrow> string list \<Rightarrow> 'c ESClient list" where
  "getESClientsFromLogAnalyticsByCluster p orgID addon clusterNames =
     (case QueryByOrgIDAndClusters p orgID clusterNames of
        Inl err \<Rightarrow> []
      | Inr list \<Rightarrow> deploymentClients p addon [] list)"

definition getESClientsFromLogAnalytics :: "'c provider \<Rightarrow> 64 word \<Rightarrow> 'c ESClient list" where
  "getESClientsFromLogAnalytics p orgID =
     (case ListClusters p [] orgID of
        Inl err \<Rightarrow> []
      | Inr clusters \<Rightarrow> getESClientsFromLogAnalyticsByCluster p orgID [] (map Name clusters))"

subsection \<open>The client selector\<close>

text \<open>
  The map \<^verbatim>\<open>filters\<close>: the pairs are stored in list order, a later pair replacing an
  earlier one with the same key. Reading a key that is not in a Go map gives the empty
  string.
\<close>

definition filtersMap :: "LogFilter list \<Rightarrow> (string \<rightharpoonup> string)" where
  "filtersMap items = foldl (\<lambda>filters item. filters(Key item \<mapsto> Value item)) Map.empty items"

definition mapIndex :: "(string \<rightharpoonup> string) \<Rightarrow> string \<Rightarrow> string" where
  "mapIndex filters k = (case filters k of None \<Rightarrow> [] | Some v \<Rightarrow> v)"

definition getESClients :: "'c provider \<Rightarrow> 64 word \<Rightarrow> LogRequest \<Rightarrow> 'c ESClient list" where
  "getESClients p orgID req =
     (if length (LogRequest.ClusterName req) > 0 \<or> length (Addon req) > 0 then
        (if length (LogRequest.ClusterName req) \<le> 0 \<or> length (Addon req) \<le> 0 then []
         else getESClientsFromLogAnalyticsByCluster p orgID
                (ReplaceAll_empty (Addon req) CHR ''*'') [LogRequest.ClusterName req])
      else
        let filters = filtersMap (Filters req) in
        if mapIndex filters ''origin'' = ''sls'' then getCenterESClients p [''sls-*'']
        else if mapIndex filters ''origin'' = ''dice'' then
          (let clients = getESClientsFromLogAnalytics p orgID in
           if length clients \<le> 0 then getCenterESClients p [''rlogs-*''] else clients)
        else if mapIndex filters ''origin'' \<noteq> [] then getCenterESClients p [''__not-exist__*'']
        else getCenterESClients p [''sls-*''] @ getESClientsFromLogAnalytics p orgID)"

subsection \<open>Sample data\<close>

text \<open>
  A provider with four deployment rows (the second without a connection URL, the third
  of the legacy type with a collector URL of white space only, the fourth of the legacy
  type with a collector URL) and five addon instances in one group, two of them
  repeated. Its client constructor returns the number of options it was given.
\<close>

definition sampleRow1 :: LogDeployment where
  "sampleRow1 = \<lparr>OrgID = ''42'', ClusterName = ''c1'', ClusterType = 0,
     ESURL = ''http://a:9200,http://b:9200'', ESConfig = [],
     CollectorURL = '' '', LogType = ''log-service''\<rparr>"

definition sampleRow2 :: LogDeployment where
  "sampleRow2 = \<lparr>OrgID = ''42'', ClusterName = ''c2'', ClusterType = 1,
     ESURL = [], ESConfig = [], CollectorURL = ''http://collector'', LogType = ''log-service''\<rparr>"

definition sampleRow3 :: LogDeployment where
  "sampleRow3 = \<lparr>OrgID = ''42'', ClusterName = ''c3'', ClusterType = 1,
     ESURL = ''http://c:9200'', ESConfig = ''{}'',
     CollectorURL = [CHR 0x20, CHR 0xC2, CHR 0xA0, CHR 0x09], LogType = ''log-analytics''\<rparr>"

definition sampleRow4 :: LogDeployment where
  "sampleRow4 = \<lparr>OrgID = ''42'', ClusterName = ''c4'', ClusterType = 0,
     ESURL = ''http://d:9200'', ESConfig = [],
     CollectorURL = '' http://collector '', LogType = ''log-analytics''\<rparr>"

definition sampleInstance :: "string \<Rightarrow> LogInstance" where
  "sampleInstance k = \<lparr>LogKey = k, ClusterName = ''c1'', ProjectId = ''7'', Workspace = ''DEV''\<rparr>"

definition sampleProvider :: "nat provider" where
  "sampleProvider =
     \<lparr>QueryBackES = True, client = 0, backClient = 1,
      ListClusters = (\<lambda>_ _. Inr [\<lparr>Name = ''c1''\<rparr>, \<lparr>Name = ''c3''\<rparr>]),
      QueryByOrgIDAndClusters = (\<lambda>_ _. Inr [sampleRow1, sampleRow2, sampleRow3, sampleRow4]),
      GetByLogKey =
        (\<lambda>k. if k = ''a'' then (Some (sampleInstance ''a''), None)
             else (None, Some (Error ''record not found''))),
      GetListByClusterAndProjectIdAndWorkspace =
        (\<lambda>_ _ _. (map sampleInstance [''a'', ''b'', ''a'', ''c'', ''b''], None)),
      NewClient = (\<lambda>options. Inr (length options)),
      Unmarshal =
        (\<lambda>s. if s = ''{}'' then Inr \<lparr>Security = False, Username = [], Password = []\<rparr>
             else Inl (Error ''unexpected end of JSON input''))\<rparr>"


section \<open>Properties\<close>

subsection \<open>Index names\<close>

lemma getLogIndices_loop_eq:
  "getLogIndices_loop pfx indices addons =
     indices @ concat (map (\<lambda>addon. [pfx @ addon, pfx @ addon @ ''-*'']) addons)"
  by (induction addons arbitrary: indices) simp_all

text \<open>
  C3: \<^verbatim>\<open>getLogIndices\<close> equals the reference definition: with addons, for each addon in
  input order the two names \<open>prefix + addon\<close> and \<open>prefix + addon + "-*"\<close>, duplicates
  kept; else with an organization id, the one name \<open>prefix + orgId\<close>; else the one name
  \<open>prefix + "*"\<close>. For the addons a and b, the prefix "rlogs-" and no organization id it
  returns rlogs-a, rlogs-a-*, rlogs-b, rlogs-b-* in that order.
\<close>

theorem getLogIndices_refines_spec:
  "getLogIndices pfx orgId addons = getLogIndices_spec pfx orgId addons \<and>
   getLogIndices ''rlogs-'' [] [''a'', ''b''] =
     [''rlogs-a'', ''rlogs-a-*'', ''rlogs-b'', ''rlogs-b-*'']"
  by (simp add: getLogIndices_def getLogIndices_spec_def getLogIndices_loop_eq)

subsection \<open>Cluster name and addon must come together\<close>

text \<open>
  C2: when exactly one of the cluster name and the addon of the request is non-empty,
  \<^verbatim>\<open>getESClients\<close> returns no client, for every provider, organization id and filter
  list. The result is the empty list: the function has no error result.
\<close>

theorem getESClients_mismatch_empty:
  assumes "(LogRequest.ClusterName req \<noteq> [] \<and> Addon req = []) \<or>
           (LogRequest.ClusterName req = [] \<and> Addon req \<noteq> [])"
  shows "getESClients p orgID req = []"
  using assms by (auto simp: getESClients_def)

theorem getESClients_mismatch_empty_witness:
  "getESClients sampleProvider 42
      \<lparr>LogRequest.ClusterName = ''c1'', Addon = [],
       Filters = [\<lparr>Key = ''origin'', Value = ''sls''\<rparr>]\<rparr> = [] \<and>
   getESClients sampleProvider 42
      \<lparr>LogRequest.ClusterName = [], Addon = ''a'', Filters = []\<rparr> = []"
  by (intro conjI getESClients_mismatch_empty) simp_all

subsection \<open>The filter map and the deployment loop\<close>

lemma foldl_filters_other:
  "\<forall>f\<in>set fs. Key f \<noteq> k \<Longrightarrow>
   foldl (\<lambda>filters item. filters(Key item \<mapsto> Value item)) m fs k = m k"
  by (induction fs arbitrary: m) auto


lemma filtersMap_last:
  "\<forall>f\<in>set post. Key f \<noteq> k \<Longrightarrow> filtersMap (pre @ \<lparr>Key = k, Value = v\<rparr> # post) k = Some v"
  by (simp add: filtersMap_def foldl_filters_other)


lemma origin_last:
  "\<forall>f\<in>set post. Key f \<noteq> k \<Longrightarrow> mapIndex (filtersMap (pre @ \<lparr>Key = k, Value = v\<rparr> # post)) k = v"
  by (simp add: mapIndex_def filtersMap_last)

lemma getESClients_by_origin:
  assumes "LogRequest.ClusterName req = []" and "Addon req = []"
  shows "getESClients p orgID req =
    (let origin = mapIndex (filtersMap (Filters req)) ''origin'' in
     if origin = ''sls'' then getCenterESClients p [''sls-*'']
     else if origin = ''dice'' then
       (if getESClientsFromLogAnalytics p orgID = [] then getCenterESClients p [''rlogs-*'']
        else getESClientsFromLogAnalytics p orgID)
     else if origin \<noteq> [] then getCenterESClients p [''__not-exist__*'']
     else getCenterESClients p [''sls-*''] @ getESClientsFromLogAnalytics p orgID)"
  using assms by (simp add: getESClients_def Let_def)

lemma deploymentClients_map_filter:
  "deploymentClients p addon clients rows =
     clients @ List.map_filter (deploymentClient p addon) rows"
  by (induction rows arbitrary: clients) (simp_all split: option.split)


lemma deploymentClient_None_iff:
  "deploymentClient p addon d = None \<longleftrightarrow>
     ESURL d = [] \<or> isl (NewClient p (clientOptions p d))"
  by (simp add: deploymentClient_def Let_def split: sum.split)





lemma sample_center:
  "getCenterESClients sampleProvider indices =
     [\<lparr>Client = 0, URLs = ''-'', LogVersion = [], Indices = indices\<rparr>,
      \<lparr>Client = 1, URLs = ''-b'', LogVersion = [], Indices = indices\<rparr>]"
  by (simp add: getCenterESClients_def sampleProvider_def)


subsection \<open>Routing by the origin filter\<close>

text \<open>
  The claim C1 as stated fails: with a cluster name in the request, the filter origin=sls
  is never read. With the cluster name alone the result is empty; with the cluster name
  and an addon it is the clients of that cluster's deployments.
\<close>

theorem getESClients_sls_cluster_counterexample:
  "getESClients sampleProvider 42
     \<lparr>LogRequest.ClusterName = ''c1'', Addon = [],
      Filters = [\<lparr>Key = ''origin'', Value = ''sls''\<rparr>]\<rparr> \<noteq>
   getCenterESClients sampleProvider [''sls-*''] \<and>
   getESClients sampleProvider 42
     \<lparr>LogRequest.ClusterName = ''c1'', Addon = ''a'',
      Filters = [\<lparr>Key = ''origin'', Value = ''sls''\<rparr>]\<rparr> \<noteq>
   getCenterESClients sampleProvider [''sls-*'']"
  by code_simp

text \<open>
  C1, as amended: for every request with an empty cluster name and an empty addon whose
  filter list carries the pair origin=sls with no later pair of the key origin,
  \<^verbatim>\<open>getESClients\<close> returns exactly the central clients scoped to the one pattern
  "sls-*" (one client, or two when the dual-read flag is on), whatever the organization
  id and the other filters are.
\<close>

theorem getESClients_sls:
  assumes "LogRequest.ClusterName req = []" and "Addon req = []"
    and "Filters req = pre @ \<lparr>Key = ''origin'', Value = ''sls''\<rparr> # post"
    and "\<forall>f\<in>set post. Key f \<noteq> ''origin''"
  shows "getESClients p orgID req = getCenterESClients p [''sls-*''] \<and>
         getCenterESClients p [''sls-*''] =
           (if QueryBackES p then
              [\<lparr>Client = client p, URLs = ''-'', LogVersion = [], Indices = [''sls-*'']\<rparr>,
               \<lparr>Client = backClient p, URLs = ''-b'', LogVersion = [], Indices = [''sls-*'']\<rparr>]
            else [\<lparr>Client = client p, URLs = ''-'', LogVersion = [], Indices = [''sls-*'']\<rparr>])"
proof
  have "mapIndex (filtersMap (Filters req)) ''origin'' = ''sls''"
    using assms(3,4) by (simp add: origin_last)
  then show "getESClients p orgID req = getCenterESClients p [''sls-*'']"
    using assms(1,2) by (simp add: getESClients_by_origin)
next
  show "getCenterESClients p [''sls-*''] =
           (if QueryBackES p then
              [\<lparr>Client = client p, URLs = ''-'', LogVersion = [], Indices = [''sls-*'']\<rparr>,
               \<lparr>Client = backClient p, URLs = ''-b'', LogVersion = [], Indices = [''sls-*'']\<rparr>]
            else [\<lparr>Client = client p, URLs = ''-'', LogVersion = [], Indices = [''sls-*'']\<rparr>])"
    by (simp add: getCenterESClients_def)
qed

theorem getESClients_sls_witness:
  "getESClients sampleProvider 42
     \<lparr>LogRequest.ClusterName = [], Addon = [],
      Filters = [\<lparr>Key = ''origin'', Value = ''dice''\<rparr>, \<lparr>Key = ''origin'', Value = ''sls''\<rparr>,
                 \<lparr>Key = ''level'', Value = ''INFO''\<rparr>]\<rparr> =
     [\<lparr>Client = 0, URLs = ''-'', LogVersion = [], Indices = [''sls-*'']\<rparr>,
      \<lparr>Client = 1, URLs = ''-b'', LogVersion = [], Indices = [''sls-*'']\<rparr>]"
  using getESClients_sls [where p = sampleProvider and orgID = 42
      and pre = "[\<lparr>Key = ''origin'', Value = ''dice''\<rparr>]"
      and post = "[\<lparr>Key = ''level'', Value = ''INFO''\<rparr>]"
      and req = "\<lparr>LogRequest.ClusterName = [], Addon = [],
      Filters = [\<lparr>Key = ''origin'', Value = ''dice''\<rparr>, \<lparr>Key = ''origin'', Value = ''sls''\<rparr>,
                 \<lparr>Key = ''level'', Value = ''INFO''\<rparr>]\<rparr>"]
  by (simp add: sampleProvider_def)





text \<open>
  C10: when the request has neither a cluster name nor an addon and its filter list has
  several pairs of the key origin, the value of the last one alone decides the routing
  of \<^verbatim>\<open>getESClients\<close>: the map built from the filters holds that value, and the result
  is the one for the filter list of that single pair.
\<close>

theorem getESClients_last_origin:
  assumes "LogRequest.ClusterName req = []" and "Addon req = []"
    and "Filters req = pre @ \<lparr>Key = ''origin'', Value = v\<rparr> # post"
    and "\<forall>f\<in>set post. Key f \<noteq> ''origin''"
  shows "filtersMap (Filters req) ''origin'' = Some v \<and>
         getESClients p orgID req =
           getESClients p orgID (req\<lparr>Filters := [\<lparr>Key = ''origin'', Value = v\<rparr>]\<rparr>) \<and>
         getESClients p orgID req =
           (if v = ''sls'' then getCenterESClients p [''sls-*'']
            else if v = ''dice'' then
              (if getESClientsFromLogAnalytics p orgID = [] then getCenterESClients p [''rlogs-*'']
               else getESClientsFromLogAnalytics p orgID)
            else if v \<noteq> [] then getCenterESClients p [''__not-exist__*'']
            else getCenterESClients p [''sls-*''] @ getESClientsFromLogAnalytics p orgID)"
proof -
  have m: "filtersMap (Filters req) ''origin'' = Some v"
    using assms(3,4) by (simp add: filtersMap_last)
  have one: "mapIndex (filtersMap [\<lparr>Key = ''origin'', Value = v\<rparr>]) ''origin'' = v"
    using origin_last [of "[]" "''origin''" "[]" v] by simp
  have full: "mapIndex (filtersMap (Filters req)) ''origin'' = v"
    using m by (simp add: mapIndex_def)
  show ?thesis
    using assms(1,2) m one full by (simp add: getESClients_by_origin Let_def)
qed

theorem getESClients_last_origin_witness:
  "getESClients sampleProvider 42
     \<lparr>LogRequest.ClusterName = [], Addon = [],
      Filters = [\<lparr>Key = ''origin'', Value = ''sls''\<rparr>, \<lparr>Key = ''origin'', Value = ''dice''\<rparr>,
                 \<lparr>Key = ''origin'', Value = ''k8s''\<rparr>, \<lparr>Key = ''level'', Value = ''INFO''\<rparr>]\<rparr> =
     [\<lparr>Client = 0, URLs = ''-'', LogVersion = [], Indices = [''__not-exist__*'']\<rparr>,
      \<lparr>Client = 1, URLs = ''-b'', LogVersion = [], Indices = [''__not-exist__*'']\<rparr>]"
  using getESClients_last_origin [where p = sampleProvider and orgID = 42 and v = "''k8s''"
      and pre = "[\<lparr>Key = ''origin'', Value = ''sls''\<rparr>, \<lparr>Key = ''origin'', Value = ''dice''\<rparr>]"
      and post = "[\<lparr>Key = ''level'', Value = ''INFO''\<rparr>]"
      and req = "\<lparr>LogRequest.ClusterName = [], Addon = [],
      Filters = [\<lparr>Key = ''origin'', Value = ''sls''\<rparr>, \<lparr>Key = ''origin'', Value = ''dice''\<rparr>,
                 \<lparr>Key = ''origin'', Value = ''k8s''\<rparr>, \<lparr>Key = ''level'', Value = ''INFO''\<rparr>]\<rparr>",
      THEN conjunct2, THEN conjunct2]
  by (simp add: sample_center)

subsection \<open>Deployment rows\<close>

lemma remdups_snoc: "remdups (xs @ [k]) = remdups (filter (\<lambda>x. x \<noteq> k) xs) @ [k]"
  by (induction xs) auto

lemma dedupFirstSeen_spec_remdups: "dedupFirstSeen_spec ks = rev (remdups (rev ks))"
  by (induction ks rule: dedupFirstSeen_spec.induct) (simp_all add: remdups_snoc rev_filter)

lemma dedupFirstSeen_spec_set: "set (dedupFirstSeen_spec ks) = set ks"
  by (induction ks rule: dedupFirstSeen_spec.induct) auto

lemma dedupFirstSeen_spec_distinct: "distinct (dedupFirstSeen_spec ks)"
  by (induction ks rule: dedupFirstSeen_spec.induct) (auto simp: dedupFirstSeen_spec_set)

lemma sameGroupKeys_eq:
  "sameGroupKeys keyCaches addons insts =
     addons @ dedupFirstSeen_spec (filter (\<lambda>k. keyCaches k = None) (map LogKey insts))"
proof (induction insts arbitrary: keyCaches addons)
  case Nil
  then show ?case by simp
next
  case (Cons inst insts)
  have "filter (\<lambda>k'. k' \<noteq> LogKey inst) (filter (\<lambda>k. keyCaches k = None) (map LogKey insts)) =
        filter (\<lambda>k. (keyCaches(LogKey inst \<mapsto> True)) k = None) (map LogKey insts)"
    by (auto intro: filter_cong)
  with Cons show ?case by auto
qed

lemma groupAddons_eq:
  "groupAddons p addon =
     (if addon = [] then []
      else case fst (GetByLogKey p addon) of
             Some logInstance \<Rightarrow>
               dedupFirstSeen_spec (map LogKey
                 (fst (GetListByClusterAndProjectIdAndWorkspace p
                    (LogInstance.ClusterName logInstance) (ProjectId logInstance)
                    (Workspace logInstance))))
           | None \<Rightarrow> [addon])"
  by (simp add: groupAddons_def sameGroupKeys_eq split: option.split)

lemma getLogIndices_not_Nil: "getLogIndices pfx orgId addons \<noteq> []"
  by (cases addons) (simp_all add: getLogIndices_def getLogIndices_loop_eq)

lemma getLogIndices_prefix: "i \<in> set (getLogIndices pfx orgId addons) \<Longrightarrow> prefix pfx i"
  by (auto simp: getLogIndices_def getLogIndices_loop_eq split: if_splits)

lemma getCenterESClients_usable:
  "c \<in> set (getCenterESClients p indices) \<Longrightarrow> indices \<noteq> [] \<Longrightarrow>
   Indices c \<noteq> [] \<and> URLs c \<noteq> []"
  by (auto simp: getCenterESClients_def split: if_splits)

lemma in_set_map_filter:
  "y \<in> set (List.map_filter f xs) \<longleftrightarrow> (\<exists>x\<in>set xs. f x = Some y)"
  by (induction xs) (auto split: option.split)

lemma deploymentClient_Some:
  assumes "deploymentClient p addon d = Some c"
  shows "ESURL d \<noteq> []" and "URLs c = ESURL d"
    and "NewClient p (clientOptions p d) = Inr (Client c)"
    and "LogVersion c =
           (if TrimSpace (CollectorURL d) \<noteq> [] \<or> LogType d = LogTypeLogService
            then LogVersion2 else LogVersion1)"
    and "Indices c =
           getLogIndices
             (if TrimSpace (CollectorURL d) \<noteq> [] \<or> LogType d = LogTypeLogService
              then ''rlogs-'' else ''spotlogs-'')
             (if LogType d = LogTypeLogAnalytics then [] else OrgID d)
             (groupAddons p addon)"
  using assms
  by (auto simp: deploymentClient_def Let_def split: if_splits sum.splits)

lemma list_all2_map_filter:
  "list_all2 (\<lambda>x y. f x = Some y) (filter (\<lambda>x. f x \<noteq> None) xs) (List.map_filter f xs)"
  by (induction xs) (auto split: option.split)

lemma byCluster_rows:
  assumes "QueryByOrgIDAndClusters p orgID clusterNames = Inr rows"
  shows "list_all2 (\<lambda>d c. deploymentClient p addon d = Some c)
           (filter (\<lambda>d. ESURL d \<noteq> [] \<and> \<not> isl (NewClient p (clientOptions p d))) rows)
           (getESClientsFromLogAnalyticsByCluster p orgID addon clusterNames)"
  using assms list_all2_map_filter [of "deploymentClient p addon" rows]
  by (simp add: getESClientsFromLogAnalyticsByCluster_def deploymentClients_map_filter
      deploymentClient_None_iff)

lemma byCluster_usable:
  assumes "c \<in> set (getESClientsFromLogAnalyticsByCluster p orgID addon clusterNames)"
  shows "Indices c \<noteq> [] \<and> URLs c \<noteq> []"
proof -
  from assms obtain d where "deploymentClient p addon d = Some c"
    by (auto simp: getESClientsFromLogAnalyticsByCluster_def deploymentClients_map_filter
        in_set_map_filter split: sum.splits)
  then show ?thesis
    using deploymentClient_Some [of p addon d c] by (simp add: getLogIndices_not_Nil)
qed

lemma own_usable:
  assumes "c \<in> set (getESClientsFromLogAnalytics p orgID)"
  shows "Indices c \<noteq> [] \<and> URLs c \<noteq> []"
  using assms byCluster_usable [of c p orgID]
  by (auto simp: getESClientsFromLogAnalytics_def split: sum.splits)
lemma sample_query:
  "QueryByOrgIDAndClusters sampleProvider orgID clusterNames =
     Inr [sampleRow1, sampleRow2, sampleRow3, sampleRow4]"
  by (simp add: sampleProvider_def)

lemma sample_rows_materialized:
  "filter (\<lambda>d. ESURL d \<noteq> [] \<and> \<not> isl (NewClient sampleProvider (clientOptions sampleProvider d)))
     [sampleRow1, sampleRow2, sampleRow3, sampleRow4] = [sampleRow1, sampleRow3, sampleRow4]"
  by (simp add: sampleProvider_def sampleRow1_def sampleRow2_def sampleRow3_def sampleRow4_def)

lemma sample_rows_with_url:
  "filter (\<lambda>d. ESURL d \<noteq> []) [sampleRow1, sampleRow2, sampleRow3, sampleRow4] =
     [sampleRow1, sampleRow3, sampleRow4]"
  by (simp add: sampleRow1_def sampleRow2_def sampleRow3_def sampleRow4_def)

lemma sample_cluster_clients:
  "getESClientsFromLogAnalyticsByCluster sampleProvider 42 ''a'' [''c1''] =
     [\<lparr>Client = 3, URLs = ''http://a:9200,http://b:9200'', LogVersion = ''2.0.0'',
       Indices = [''rlogs-a'', ''rlogs-a-*'', ''rlogs-b'', ''rlogs-b-*'', ''rlogs-c'', ''rlogs-c-*'']\<rparr>,
      \<lparr>Client = 4, URLs = ''http://c:9200'', LogVersion = ''1.0.0'',
       Indices = [''spotlogs-a'', ''spotlogs-a-*'', ''spotlogs-b'', ''spotlogs-b-*'',
                  ''spotlogs-c'', ''spotlogs-c-*'']\<rparr>,
      \<lparr>Client = 3, URLs = ''http://d:9200'', LogVersion = ''2.0.0'',
       Indices = [''rlogs-a'', ''rlogs-a-*'', ''rlogs-b'', ''rlogs-b-*'', ''rlogs-c'', ''rlogs-c-*'']\<rparr>]"
  by code_simp
lemma sample_all_clients:
  "getESClientsFromLogAnalyticsByCluster sampleProvider 42 [] [''c1'', ''c3''] =
     [\<lparr>Client = 3, URLs = ''http://a:9200,http://b:9200'', LogVersion = ''2.0.0'',
       Indices = [''rlogs-42'']\<rparr>,
      \<lparr>Client = 4, URLs = ''http://c:9200'', LogVersion = ''1.0.0'',
       Indices = [''spotlogs-*'']\<rparr>,
      \<lparr>Client = 3, URLs = ''http://d:9200'', LogVersion = ''2.0.0'',
       Indices = [''rlogs-*'']\<rparr>]"
  by code_simp
lemma groupAddons_query_irrelevant:
  "groupAddons (p\<lparr>QueryByOrgIDAndClusters := q\<rparr>) addon = groupAddons p addon"
  by (simp add: groupAddons_def split: option.split)

lemma clientOptions_query_irrelevant:
  "clientOptions (p\<lparr>QueryByOrgIDAndClusters := q\<rparr>) d = clientOptions p d"
  by (simp add: clientOptions_def Let_def split: sum.split)

lemma deploymentClient_query_irrelevant:
  "deploymentClient (p\<lparr>QueryByOrgIDAndClusters := q\<rparr>) addon = deploymentClient p addon"
  by (rule ext)
    (simp add: deploymentClient_def groupAddons_query_irrelevant clientOptions_query_irrelevant)

lemma map_filter_filter:
  "(\<And>x. \<not> P x \<Longrightarrow> f x = None) \<Longrightarrow> List.map_filter f (filter P xs) = List.map_filter f xs"
  by (induction xs) (auto split: option.split)

text \<open>
  C4: every client in the list that \<^verbatim>\<open>getESClients\<close> returns, on every path (the cluster
  and addon path, every origin path and the union path), has at least one index pattern
  and a non-empty URLs string.
\<close>

theorem getESClients_clients_usable:
  "\<forall>c\<in>set (getESClients p orgID req). Indices c \<noteq> [] \<and> URLs c \<noteq> []"
proof
  fix c assume c: "c \<in> set (getESClients p orgID req)"
  show "Indices c \<noteq> [] \<and> URLs c \<noteq> []"
  proof (cases "LogRequest.ClusterName req = [] \<and> Addon req = []")
    case True
    then have "c \<in> set (getCenterESClients p [''sls-*'']) \<or>
               c \<in> set (getCenterESClients p [''rlogs-*'']) \<or>
               c \<in> set (getCenterESClients p [''__not-exist__*'']) \<or>
               c \<in> set (getESClientsFromLogAnalytics p orgID)"
      using c by (auto simp: getESClients_by_origin Let_def split: if_splits)
    then show ?thesis
      by (elim disjE) (simp_all add: getCenterESClients_usable own_usable)
  next
    case False
    then have "c \<in> set (getESClientsFromLogAnalyticsByCluster p orgID
        (ReplaceAll_empty (Addon req) CHR ''*'') [LogRequest.ClusterName req])"
      using c by (auto simp: getESClients_def split: if_splits)
    then show ?thesis by (rule byCluster_usable)
  qed
qed

theorem getESClients_clients_usable_witness:
  "list_all (\<lambda>c. Indices c \<noteq> [] \<and> URLs c \<noteq> [])
     (getESClients sampleProvider 42
        \<lparr>LogRequest.ClusterName = ''c1'', Addon = ''a*'', Filters = []\<rparr>) \<and>
   getESClients sampleProvider 42
     \<lparr>LogRequest.ClusterName = ''c1'', Addon = ''a*'', Filters = []\<rparr> =
   getESClientsFromLogAnalyticsByCluster sampleProvider 42 ''a'' [''c1''] \<and>
   length (getESClientsFromLogAnalyticsByCluster sampleProvider 42 ''a'' [''c1'']) = 3"
proof -
  have "getESClients sampleProvider 42
     \<lparr>LogRequest.ClusterName = ''c1'', Addon = ''a*'', Filters = []\<rparr> =
     getESClientsFromLogAnalyticsByCluster sampleProvider 42 ''a'' [''c1'']"
    by (simp add: getESClients_def ReplaceAll_empty_def)
  then show ?thesis
    using getESClients_clients_usable [of sampleProvider 42
        "\<lparr>LogRequest.ClusterName = ''c1'', Addon = ''a*'', Filters = []\<rparr>"]
    by (simp add: list_all_iff sample_cluster_clients)
qed

text \<open>
  C7: for every deployment row that is materialized into a client (a row with a
  connection URL whose client is constructed), in row order: if the row's collector URL
  is non-empty after trimming white space, or its log type is "log-service", the client
  has the version "2.0.0" and its indices are named with the prefix "rlogs-"; otherwise it
  has the version "1.0.0" and the prefix "spotlogs-".
\<close>

theorem deployment_version_and_prefix:
  assumes "QueryByOrgIDAndClusters p orgID clusterNames = Inr rows"
  shows "list_all2
           (\<lambda>d c.
              if TrimSpace (CollectorURL d) \<noteq> [] \<or> LogType d = ''log-service'' then
                LogVersion c = ''2.0.0'' \<and>
                Indices c =
                  getLogIndices ''rlogs-'' (if LogType d = ''log-analytics'' then [] else OrgID d)
                    (groupAddons p addon) \<and>
                (\<forall>i\<in>set (Indices c). prefix ''rlogs-'' i)
              else
                LogVersion c = ''1.0.0'' \<and>
                Indices c =
                  getLogIndices ''spotlogs-'' (if LogType d = ''log-analytics'' then [] else OrgID d)
                    (groupAddons p addon) \<and>
                (\<forall>i\<in>set (Indices c). prefix ''spotlogs-'' i))
           (filter (\<lambda>d. ESURL d \<noteq> [] \<and> \<not> isl (NewClient p (clientOptions p d))) rows)
           (getESClientsFromLogAnalyticsByCluster p orgID addon clusterNames)"
proof (rule list_all2_mono [OF byCluster_rows [OF assms]])
  fix d c
  assume "deploymentClient p addon d = Some c"
  note dc = deploymentClient_Some(4,5) [OF this]
  show "if TrimSpace (CollectorURL d) \<noteq> [] \<or> LogType d = ''log-service'' then
                LogVersion c = ''2.0.0'' \<and>
                Indices c =
                  getLogIndices ''rlogs-'' (if LogType d = ''log-analytics'' then [] else OrgID d)
                    (groupAddons p addon) \<and>
                (\<forall>i\<in>set (Indices c). prefix ''rlogs-'' i)
              else
                LogVersion c = ''1.0.0'' \<and>
                Indices c =
                  getLogIndices ''spotlogs-'' (if LogType d = ''log-analytics'' then [] else OrgID d)
                    (groupAddons p addon) \<and>
                (\<forall>i\<in>set (Indices c). prefix ''spotlogs-'' i)"
  proof (cases "TrimSpace (CollectorURL d) \<noteq> [] \<or> LogType d = ''log-service''")
    case True
    then show ?thesis
      using dc getLogIndices_prefix [of _ "''rlogs-''"]
      by (auto simp: LogVersion2_def LogTypeLogService_def LogTypeLogAnalytics_def)
  next
    case False
    then show ?thesis
      using dc getLogIndices_prefix [of _ "''spotlogs-''"]
      by (auto simp: LogVersion1_def LogTypeLogService_def LogTypeLogAnalytics_def)
  qed
qed

theorem deployment_version_and_prefix_witness:
  "list_all2
     (\<lambda>d c.
        if TrimSpace (CollectorURL d) \<noteq> [] \<or> LogType d = ''log-service'' then
          LogVersion c = ''2.0.0'' \<and>
          Indices c =
            getLogIndices ''rlogs-'' (if LogType d = ''log-analytics'' then [] else OrgID d)
              (groupAddons sampleProvider []) \<and>
          (\<forall>i\<in>set (Indices c). prefix ''rlogs-'' i)
        else
          LogVersion c = ''1.0.0'' \<and>
          Indices c =
            getLogIndices ''spotlogs-'' (if LogType d = ''log-analytics'' then [] else OrgID d)
              (groupAddons sampleProvider []) \<and>
          (\<forall>i\<in>set (Indices c). prefix ''spotlogs-'' i))
     [sampleRow1, sampleRow3, sampleRow4]
     (getESClientsFromLogAnalyticsByCluster sampleProvider 42 [] [''c1'', ''c3'']) \<and>
   map (\<lambda>c. (LogVersion c, Indices c))
     (getESClientsFromLogAnalyticsByCluster sampleProvider 42 [] [''c1'', ''c3'']) =
     [(''2.0.0'', [''rlogs-42'']), (''1.0.0'', [''spotlogs-*'']), (''2.0.0'', [''rlogs-*''])]"
proof
  show "map (\<lambda>c. (LogVersion c, Indices c))
     (getESClientsFromLogAnalyticsByCluster sampleProvider 42 [] [''c1'', ''c3'']) =
     [(''2.0.0'', [''rlogs-42'']), (''1.0.0'', [''spotlogs-*'']), (''2.0.0'', [''rlogs-*''])]"
    by (simp add: sample_all_clients)
qed (use deployment_version_and_prefix [where p = sampleProvider and orgID = 42
        and addon = "[]" and clusterNames = "[''c1'', ''c3'']", OF sample_query]
      in \<open>simp only: sample_rows_materialized\<close>)

text \<open>
  C8: when a non-empty addon is given to the deployment lookup, the addon keys used to
  name the indices of every materialized row are: when the lookup of the addon key finds
  an instance, the log keys of the instances listed for that instance's cluster, project
  id and workspace, deduplicated with the first occurrence kept and the first-seen order
  preserved; when it finds none, the given addon alone.
\<close>

theorem addon_group_keys:
  assumes "addon \<noteq> []"
    and "QueryByOrgIDAndClusters p orgID clusterNames = Inr rows"
  shows "groupAddons p addon =
           (case fst (GetByLogKey p addon) of
              Some logInstance \<Rightarrow>
                dedupFirstSeen_spec (map LogKey
                  (fst (GetListByClusterAndProjectIdAndWorkspace p
                     (LogInstance.ClusterName logInstance) (ProjectId logInstance)
                     (Workspace logInstance))))
            | None \<Rightarrow> [addon]) \<and>
         list_all2
           (\<lambda>d c. \<exists>pfx orgId. Indices c = getLogIndices pfx orgId (groupAddons p addon))
           (filter (\<lambda>d. ESURL d \<noteq> [] \<and> \<not> isl (NewClient p (clientOptions p d))) rows)
           (getESClientsFromLogAnalyticsByCluster p orgID addon clusterNames) \<and>
         distinct (groupAddons p addon) \<and>
         (case fst (GetByLogKey p addon) of
            Some logInstance \<Rightarrow>
              set (groupAddons p addon) =
                LogKey ` set (fst (GetListByClusterAndProjectIdAndWorkspace p
                  (LogInstance.ClusterName logInstance) (ProjectId logInstance)
                  (Workspace logInstance)))
          | None \<Rightarrow> True)"
proof (intro conjI)
  show "groupAddons p addon =
           (case fst (GetByLogKey p addon) of
              Some logInstance \<Rightarrow>
                dedupFirstSeen_spec (map LogKey
                  (fst (GetListByClusterAndProjectIdAndWorkspace p
                     (LogInstance.ClusterName logInstance) (ProjectId logInstance)
                     (Workspace logInstance))))
            | None \<Rightarrow> [addon])"
    using assms(1) by (simp add: groupAddons_eq)
next
  show "list_all2
           (\<lambda>d c. \<exists>pfx orgId. Indices c = getLogIndices pfx orgId (groupAddons p addon))
           (filter (\<lambda>d. ESURL d \<noteq> [] \<and> \<not> isl (NewClient p (clientOptions p d))) rows)
           (getESClientsFromLogAnalyticsByCluster p orgID addon clusterNames)"
  proof (rule list_all2_mono [OF byCluster_rows [OF assms(2)]])
    fix d c
    assume "deploymentClient p addon d = Some c"
    from deploymentClient_Some(5) [OF this]
    show "\<exists>pfx orgId. Indices c = getLogIndices pfx orgId (groupAddons p addon)"
      by blast
  qed
next
  show "distinct (groupAddons p addon)"
    by (simp add: groupAddons_eq dedupFirstSeen_spec_distinct split: option.split)
next
  show "case fst (GetByLogKey p addon) of
            Some logInstance \<Rightarrow>
              set (groupAddons p addon) =
                LogKey ` set (fst (GetListByClusterAndProjectIdAndWorkspace p
                  (LogInstance.ClusterName logInstance) (ProjectId logInstance)
                  (Workspace logInstance)))
          | None \<Rightarrow> True"
    using assms(1) by (simp add: groupAddons_eq dedupFirstSeen_spec_set split: option.split)
qed

theorem addon_group_keys_witness:
  "groupAddons sampleProvider ''a'' = [''a'', ''b'', ''c''] \<and>
   groupAddons sampleProvider ''zz'' = [''zz'']"
  using addon_group_keys [where p = sampleProvider and addon = "''a''", OF _ sample_query,
      THEN conjunct1]
    addon_group_keys [where p = sampleProvider and addon = "''zz''", OF _ sample_query,
      THEN conjunct1]
  by (simp add: sampleProvider_def sampleInstance_def)

text \<open>
  C9: a deployment row with an empty connection URL gives no client, and the clients of
  a batch are those of the batch without such rows: each remaining row gives the client
  it gives on its own. When every row of the batch has a connection URL and its client
  is constructed, the result has exactly one client per row, in row order.
\<close>

theorem empty_url_rows_skipped:
  assumes "QueryByOrgIDAndClusters p orgID clusterNames = Inr rows"
  shows "getESClientsFromLogAnalyticsByCluster p orgID addon clusterNames =
           getESClientsFromLogAnalyticsByCluster
             (p\<lparr>QueryByOrgIDAndClusters := \<lambda>_ _. Inr (filter (\<lambda>d. ESURL d \<noteq> []) rows)\<rparr>)
             orgID addon clusterNames \<and>
         list_all2 (\<lambda>d c. deploymentClient p addon d = Some c \<and> URLs c = ESURL d)
           (filter (\<lambda>d. ESURL d \<noteq> [] \<and> \<not> isl (NewClient p (clientOptions p d))) rows)
           (getESClientsFromLogAnalyticsByCluster p orgID addon clusterNames) \<and>
         ((\<forall>d\<in>set rows. ESURL d \<noteq> [] \<and> \<not> isl (NewClient p (clientOptions p d))) \<longrightarrow>
            length (getESClientsFromLogAnalyticsByCluster p orgID addon clusterNames) = length rows \<and>
            map URLs (getESClientsFromLogAnalyticsByCluster p orgID addon clusterNames) =
              map ESURL rows)"
proof -
  let ?res = "getESClientsFromLogAnalyticsByCluster p orgID addon clusterNames"
  let ?ok = "\<lambda>d. ESURL d \<noteq> [] \<and> \<not> isl (NewClient p (clientOptions p d))"
  have res: "?res = List.map_filter (deploymentClient p addon) rows"
    using assms by (simp add: getESClientsFromLogAnalyticsByCluster_def deploymentClients_map_filter)
  have "List.map_filter (deploymentClient p addon) (filter (\<lambda>d. ESURL d \<noteq> []) rows) =
      List.map_filter (deploymentClient p addon) rows"
    by (rule map_filter_filter) (simp add: deploymentClient_None_iff)
  then have skip: "?res =
      getESClientsFromLogAnalyticsByCluster
        (p\<lparr>QueryByOrgIDAndClusters := \<lambda>_ _. Inr (filter (\<lambda>d. ESURL d \<noteq> []) rows)\<rparr>)
        orgID addon clusterNames"
    unfolding res
    by (simp add: getESClientsFromLogAnalyticsByCluster_def deploymentClients_map_filter
        deploymentClient_query_irrelevant map_filter_filter)
  have each: "list_all2 (\<lambda>d c. deploymentClient p addon d = Some c \<and> URLs c = ESURL d)
      (filter ?ok rows) ?res"
    by (rule list_all2_mono [OF byCluster_rows [OF assms]]) (simp add: deploymentClient_Some(2))
  have "length ?res = length rows \<and> map URLs ?res = map ESURL rows"
    if "\<forall>d\<in>set rows. ?ok d"
  proof -
    from that have "filter ?ok rows = rows" by simp
    with each have all: "list_all2 (\<lambda>d c. deploymentClient p addon d = Some c \<and> URLs c = ESURL d)
        rows ?res" by simp
    then have "length ?res = length rows"
      by (simp add: list_all2_lengthD)
    moreover from all have "map URLs ?res = map ESURL rows"
      by (induction rule: list_all2_induct) simp_all
    ultimately show ?thesis by simp
  qed
  with skip each show ?thesis by blast
qed

theorem empty_url_rows_skipped_witness:
  "getESClientsFromLogAnalyticsByCluster sampleProvider 42 [] [''c1'', ''c3''] =
     getESClientsFromLogAnalyticsByCluster
       (sampleProvider\<lparr>QueryByOrgIDAndClusters :=
          \<lambda>_ _. Inr [sampleRow1, sampleRow3, sampleRow4]\<rparr>) 42 [] [''c1'', ''c3''] \<and>
   map URLs (getESClientsFromLogAnalyticsByCluster sampleProvider 42 [] [''c1'', ''c3'']) =
     [''http://a:9200,http://b:9200'', ''http://c:9200'', ''http://d:9200'']"
proof -
  have "getESClientsFromLogAnalyticsByCluster sampleProvider 42 [] [''c1'', ''c3''] =
     getESClientsFromLogAnalyticsByCluster
       (sampleProvider\<lparr>QueryByOrgIDAndClusters :=
          \<lambda>_ _. Inr [sampleRow1, sampleRow3, sampleRow4]\<rparr>) 42 [] [''c1'', ''c3'']"
    using empty_url_rows_skipped [where p = sampleProvider and orgID = 42 and addon = "[]"
        and clusterNames = "[''c1'', ''c3'']", OF sample_query, THEN conjunct1]
    by (simp only: sample_rows_with_url)
  moreover have
    "map URLs (getESClientsFromLogAnalyticsByCluster sampleProvider 42 [] [''c1'', ''c3'']) =
       [''http://a:9200,http://b:9200'', ''http://c:9200'', ''http://d:9200'']"
    by (simp add: sample_all_clients)
  ultimately show ?thesis ..
qed

end
